theory Spec2Isabelle
  imports Complex_Main
begin

section \<open>The DQN policy module of stable-baselines3 (stable-baselines3, dqn/policies.py)\<close>

text \<open>
  A shallow embedding of the two classes of the module, \<open>Q_Net\<close> and \<open>DQNPolicy\<close>.
  Python floats are modelled as \<open>real\<close> (no rounding, no NaN), Python integers as
  \<open>int\<close>, exceptions as the left summand of a result type, and the three random
  sources the code draws from (numpy's global generator, the action space's sampler and
  torch's parameter initialisation) as streams with a position, threaded through every call.
\<close>

subsection \<open>Exceptions\<close>

datatype error =
    AttributeError
  | IndexError
  | RuntimeError
  | ValueError
  | ConfigurationError
  | UnsupportedSpaceError

subsection \<open>Tensors (torch), up to rank two\<close>

text \<open>
  A tensor of rank 0, 1 or 2. A batch of observations is a rank-2 tensor with one row per
  batch element (an observation of higher rank is represented by its rows as
  \<open>nn.Flatten\<close> leaves them); a single unbatched observation is a rank-1 tensor.
\<close>

datatype 'a tensor = T0 'a | T1 "'a list" | T2 "'a list list"

fun ndim :: "'a tensor \<Rightarrow> nat" where
  "ndim (T0 x) = 0"
| "ndim (T1 xs) = 1"
| "ndim (T2 rows) = 2"

text \<open>\<open>t.shape[0]\<close>. The source reads it only under \<open>ndim > 1\<close>; a rank-0 tensor has none.\<close>

fun shape0 :: "'a tensor \<Rightarrow> nat" where
  "shape0 (T0 x) = 0"
| "shape0 (T1 xs) = length xs"
| "shape0 (T2 rows) = length rows"

fun flat :: "'a tensor \<Rightarrow> 'a list" where
  "flat (T0 x) = [x]"
| "flat (T1 xs) = xs"
| "flat (T2 rows) = concat rows"

text \<open>\<open>t.reshape(1)\<close>: defined only for a tensor of exactly one element.\<close>

definition reshape_1 :: "'a tensor \<Rightarrow> error + 'a tensor" where
  "reshape_1 t = (case flat t of [x] \<Rightarrow> Inr (T1 [x]) | _ \<Rightarrow> Inl RuntimeError)"

text \<open>\<open>t.reshape(-1)\<close>: all elements in one dimension; never fails.\<close>

definition reshape_flat :: "'a tensor \<Rightarrow> 'a tensor" where
  "reshape_flat t = T1 (flat t)"

fun tmap :: "('a \<Rightarrow> 'b) \<Rightarrow> 'a tensor \<Rightarrow> 'b tensor" where
  "tmap f (T0 x) = T0 (f x)"
| "tmap f (T1 xs) = T1 (map f xs)"
| "tmap f (T2 rows) = T2 (map (map f) rows)"

text \<open>
  \<open>th.argmax(q, 1)\<close>: along dimension 1, the index of the first maximal entry of every
  row. \<open>argmax_from best bi i ys\<close> scans the rest \<open>ys\<close> of a row, whose next index is
  \<open>i\<close>, with the best value so far \<open>best\<close> found at index \<open>bi\<close>; only a strictly larger
  entry replaces it.
\<close>

fun argmax_from :: "real \<Rightarrow> nat \<Rightarrow> nat \<Rightarrow> real list \<Rightarrow> nat" where
  "argmax_from best bi i [] = bi"
| "argmax_from best bi i (y # ys) =
     (if best < y then argmax_from y i (Suc i) ys else argmax_from best bi (Suc i) ys)"

fun argmax_row :: "real list \<Rightarrow> nat" where
  "argmax_row [] = 0"
| "argmax_row (x # xs) = argmax_from x 0 1 xs"

text \<open>A tensor without dimension 1, or with an empty one, makes torch raise IndexError.\<close>

fun th_argmax_dim1 :: "real tensor \<Rightarrow> error + nat tensor" where
  "th_argmax_dim1 (T2 rows) =
     (if [] \<in> set rows then Inl IndexError else Inr (T1 (map argmax_row rows)))"
| "th_argmax_dim1 (T1 xs) = Inl IndexError"
| "th_argmax_dim1 (T0 x) = Inl IndexError"

subsection \<open>Spaces (gym)\<close>

datatype space = Discrete nat | Box "nat list" | MultiDiscrete "nat list"

text \<open>The attribute \<open>n\<close> of a space: only a \<open>Discrete\<close> space of this model has it.\<close>

fun space_n :: "space \<Rightarrow> error + int" where
  "space_n (Discrete n) = Inr (int n)"
| "space_n (Box shape) = Inl AttributeError"
| "space_n (MultiDiscrete nvec) = Inl AttributeError"

text \<open>
  Modelled from the spec: \<open>get_obs_dim\<close> (module common.preprocessing of the package) is not
  part of the module; it gives the width of the flattened observation.
\<close>

fun get_obs_dim :: "space \<Rightarrow> int" where
  "get_obs_dim (Discrete n) = int n"
| "get_obs_dim (Box shape) = int (prod_list shape)"
| "get_obs_dim (MultiDiscrete nvec) = int (sum_list nvec)"

subsection \<open>Random sources\<close>

text \<open>
  \<open>np_rand\<close> lists the results of the successive calls of \<open>np.random.rand()\<close>,
  \<open>space_samples\<close> those of \<open>action_space.sample()\<close>, \<open>torch_init\<close> the values torch
  draws when it initialises parameters; each counter is the number of values used so far.
\<close>

record random_state =
  np_rand :: "nat \<Rightarrow> real"
  np_rand_calls :: nat
  space_samples :: "nat \<Rightarrow> nat"
  space_sample_calls :: nat
  torch_init :: "nat \<Rightarrow> real"
  torch_init_calls :: nat

definition np_random_rand :: "random_state \<Rightarrow> real \<times> random_state" where
  "np_random_rand rs = (np_rand rs (np_rand_calls rs), rs\<lparr>np_rand_calls := Suc (np_rand_calls rs)\<rparr>)"

text \<open>\<open>action_space.sample()\<close>: by the action-space contract, an action index.\<close>

definition space_sample :: "space \<Rightarrow> random_state \<Rightarrow> nat \<times> random_state" where
  "space_sample sp rs =
     (space_samples rs (space_sample_calls rs),
      rs\<lparr>space_sample_calls := Suc (space_sample_calls rs)\<rparr>)"

text \<open>\<open>[action_space.sample() for i in range(k)]\<close>\<close>

fun sample_list :: "space \<Rightarrow> nat \<Rightarrow> random_state \<Rightarrow> nat list \<times> random_state" where
  "sample_list sp 0 rs = ([], rs)"
| "sample_list sp (Suc k) rs =
     (let (a, rs1) = space_sample sp rs;
          (as, rs2) = sample_list sp k rs1
      in (a # as, rs2))"

subsection \<open>Network layers (torch.nn)\<close>

datatype activation = ReLU | Tanh

fun act_apply :: "activation \<Rightarrow> real \<Rightarrow> real" where
  "act_apply ReLU x = max 0 x"
| "act_apply Tanh x = tanh x"

text \<open>
  \<open>nn.Linear\<close> with its attributes \<open>in_features\<close>, \<open>out_features\<close>, \<open>weight\<close> (one row
  per output) and \<open>bias\<close>; \<open>Activation a\<close> is an instance of the activation class.
\<close>

datatype layer =
    Linear nat nat "real list list" "real list"
  | Activation activation

text \<open>
  \<open>nn.Linear(d_in, d_out)\<close>: a fresh layer whose \<open>d_out * d_in\<close> weights and \<open>d_out\<close>
  biases are the next values of torch's initialisation stream.
\<close>

definition nn_Linear :: "nat \<Rightarrow> nat \<Rightarrow> random_state \<Rightarrow> layer \<times> random_state" where
  "nn_Linear d_in d_out rs =
     (let k = torch_init_calls rs; g = torch_init rs
      in (Linear d_in d_out
            (map (\<lambda>j. map (\<lambda>i. g (k + j * d_in + i)) [0..<d_in]) [0..<d_out])
            (map (\<lambda>j. g (k + d_out * d_in + j)) [0..<d_out]),
          rs\<lparr>torch_init_calls := k + d_out * d_in + d_out\<rparr>))"

definition dot :: "real list \<Rightarrow> real list \<Rightarrow> real" where
  "dot w x = sum_list (map2 (*) w x)"

definition affine :: "real list list \<Rightarrow> real list \<Rightarrow> real list \<Rightarrow> real list" where
  "affine W b x = map2 (\<lambda>w bj. dot w x + bj) W b"

text \<open>
  Applying one module. A linear layer maps the last dimension and raises RuntimeError when
  the input's width is not \<open>in_features\<close>.
\<close>

fun layer_apply :: "layer \<Rightarrow> real tensor \<Rightarrow> error + real tensor" where
  "layer_apply (Linear d_in d_out W b) (T2 rows) =
     (if list_all (\<lambda>x. length x = d_in) rows then Inr (T2 (map (affine W b) rows))
      else Inl RuntimeError)"
| "layer_apply (Linear d_in d_out W b) (T1 x) =
     (if length x = d_in then Inr (T1 (affine W b x)) else Inl RuntimeError)"
| "layer_apply (Linear d_in d_out W b) (T0 x) = Inl RuntimeError"
| "layer_apply (Activation a) t = Inr (tmap (act_apply a) t)"

text \<open>\<open>nn.Sequential(*layers)\<close> applied to a tensor.\<close>

fun nn_Sequential :: "layer list \<Rightarrow> real tensor \<Rightarrow> error + real tensor" where
  "nn_Sequential [] t = Inr t"
| "nn_Sequential (l # ls) t =
     (case layer_apply l t of Inl e \<Rightarrow> Inl e | Inr t' \<Rightarrow> nn_Sequential ls t')"

text \<open>
  The only feature extractor the module uses is \<open>nn.Flatten()\<close>, which keeps dimension 0
  and flattens the others; torch raises IndexError on a tensor without dimension 1.
\<close>

datatype extractor = Flatten

fun extractor_apply :: "extractor \<Rightarrow> real tensor \<Rightarrow> error + real tensor" where
  "extractor_apply Flatten (T2 rows) = Inr (T2 rows)"
| "extractor_apply Flatten (T1 xs) = Inl IndexError"
| "extractor_apply Flatten (T0 x) = Inl IndexError"

subsection \<open>Parameters, state dictionaries and the optimizer (torch)\<close>

text \<open>
  A parameter of a network is named by the index of its layer in the \<open>nn.Sequential\<close> and
  its kind (the keys \<open>q_net.<i>.weight\<close> and \<open>q_net.<i>.bias\<close> of torch).
\<close>

datatype param_kind = Weight | Bias

type_synonym param_key = "nat \<times> param_kind"

fun state_dict_from :: "nat \<Rightarrow> layer list \<Rightarrow> (param_key \<times> real tensor) list" where
  "state_dict_from i [] = []"
| "state_dict_from i (Linear d_in d_out W b # ls) =
     ((i, Weight), T2 W) # ((i, Bias), T1 b) # state_dict_from (Suc i) ls"
| "state_dict_from i (Activation a # ls) = state_dict_from (Suc i) ls"

text \<open>
  Copying a state dictionary into the layers (strict mode): every parameter of the
  receiving layers must be present with the shape of the parameter it replaces.
\<close>

fun load_layers :: "nat \<Rightarrow> layer list \<Rightarrow> (param_key \<rightharpoonup> real tensor) \<Rightarrow> error + layer list" where
  "load_layers i [] sd = Inr []"
| "load_layers i (Linear d_in d_out W b # ls) sd =
     (case (sd (i, Weight), sd (i, Bias)) of
        (Some (T2 W'), Some (T1 b')) \<Rightarrow>
          (if map length W' = map length W \<and> length b' = length b then
             (case load_layers (Suc i) ls sd of
                Inl e \<Rightarrow> Inl e
              | Inr ls' \<Rightarrow> Inr (Linear d_in d_out W' b' # ls'))
           else Inl RuntimeError)
      | _ \<Rightarrow> Inl RuntimeError)"
| "load_layers i (Activation a # ls) sd =
     (case load_layers (Suc i) ls sd of
        Inl e \<Rightarrow> Inl e
      | Inr ls' \<Rightarrow> Inr (Activation a # ls'))"

text \<open>
  A reference to a parameter object of a module tree: the attribute path of the submodule
  that owns it, and its key there.
\<close>

type_synonym param_ref = "string \<times> param_key"

record optimizer =
  param_groups :: "param_ref list"
  lr :: real

text \<open>\<open>th.optim.Adam(params, lr=lr)\<close> refuses an empty parameter list and a negative rate.\<close>

definition th_optim_Adam :: "param_ref list \<Rightarrow> real \<Rightarrow> error + optimizer" where
  "th_optim_Adam params rate =
     (if rate < 0 then Inl ValueError
      else if params = [] then Inl ValueError
      else Inr \<lparr>param_groups = params, lr = rate\<rparr>)"

subsection \<open>The layer stack of a value network\<close>

text \<open>
  Modelled from the spec: the stack that \<open>create_mlp\<close> builds, the layers
  \<open>d_in \<rightarrow> h\<^sub>1 \<rightarrow> \<dots> \<rightarrow> h\<^sub>k \<rightarrow> d_out\<close> with an activation after every hidden layer and
  none after the last.
\<close>

fun mlp_layers ::
  "nat \<Rightarrow> nat list \<Rightarrow> nat \<Rightarrow> activation \<Rightarrow> random_state \<Rightarrow> layer list \<times> random_state" where
  "mlp_layers d_in [] d_out act rs = (let (l, rs1) = nn_Linear d_in d_out rs in ([l], rs1))"
| "mlp_layers d_in (h # hs) d_out act rs =
     (let (l, rs1) = nn_Linear d_in h rs;
          (ls, rs2) = mlp_layers h hs d_out act rs1
      in (l # Activation act # ls, rs2))"

text \<open>
  Modelled from the spec: \<open>create_mlp\<close> (module common.policies of the package) is not part
  of the module. By the spec the construction of the value network builds the affine stack
  from \<open>features_dim\<close> through \<open>net_arch\<close> to \<open>action_dim\<close> and fails with
  \<open>ConfigurationError\<close> on an empty \<open>net_arch\<close>, on \<open>action_dim \<le> 0\<close> and on any other
  non-positive dimension.
\<close>

definition create_mlp ::
  "int \<Rightarrow> int \<Rightarrow> int list \<Rightarrow> activation \<Rightarrow> random_state \<Rightarrow> error + layer list \<times> random_state" where
  "create_mlp input_dim output_dim arch act rs =
     (if arch = [] \<or> output_dim \<le> 0 \<or> input_dim \<le> 0 \<or> list_ex (\<lambda>h. h \<le> 0) arch
      then Inl ConfigurationError
      else Inr (mlp_layers (nat input_dim) (map nat arch) (nat output_dim) act rs))"

subsection \<open>Class Q-Net\<close>

text \<open>The keyword arguments of \<open>Q_Net.__init__\<close>, as the dictionary \<open>net_args\<close> holds them.\<close>

record Q_Net_kwargs =
  observation_space :: space
  action_space :: space
  features_extractor :: extractor
  features_dim :: int
  action_dim :: int
  net_arch :: "int list option"
  device :: string
  activation_fn :: activation
  epsilon :: real
  normalize_images :: bool

record Q_Net =
  observation_space :: space
  action_space :: space
  device :: string
  net_arch :: "int list"
  activation_fn :: activation
  features_extractor :: extractor
  features_dim :: int
  action_dim :: int
  normalize_images :: bool
  epsilon :: real
  q_net :: "layer list"

text \<open>
  \<open>Q_Net.__init__\<close>: the base class stores the spaces and the device, \<open>net_arch\<close>
  defaults to \<open>[64, 64]\<close> when it is \<open>None\<close>, the attributes are stored, and the layers
  that \<open>create_mlp\<close> returns become the \<open>nn.Sequential\<close> \<open>q_net\<close>. The constructor has
  no check of its own.
\<close>

definition Q_Net_init :: "Q_Net_kwargs \<Rightarrow> random_state \<Rightarrow> error + Q_Net \<times> random_state" where
  "Q_Net_init kw rs =
     (let arch = (case Q_Net_kwargs.net_arch kw of None \<Rightarrow> [64, 64] | Some a \<Rightarrow> a)
      in case create_mlp (Q_Net_kwargs.features_dim kw) (Q_Net_kwargs.action_dim kw) arch
                (Q_Net_kwargs.activation_fn kw) rs of
           Inl e \<Rightarrow> Inl e
         | Inr (layers, rs1) \<Rightarrow>
             Inr (\<lparr>Q_Net.observation_space = Q_Net_kwargs.observation_space kw,
                   Q_Net.action_space = Q_Net_kwargs.action_space kw,
                   Q_Net.device = Q_Net_kwargs.device kw,
                   Q_Net.net_arch = arch,
                   Q_Net.activation_fn = Q_Net_kwargs.activation_fn kw,
                   Q_Net.features_extractor = Q_Net_kwargs.features_extractor kw,
                   Q_Net.features_dim = Q_Net_kwargs.features_dim kw,
                   Q_Net.action_dim = Q_Net_kwargs.action_dim kw,
                   Q_Net.normalize_images = Q_Net_kwargs.normalize_images kw,
                   Q_Net.epsilon = Q_Net_kwargs.epsilon kw,
                   Q_Net.q_net = layers\<rparr>, rs1))"

text \<open>
  Modelled from the spec: \<open>extract_features\<close> is a method of the base class (module
  common.policies of the package), which is not part of the module; it applies the feature
  extractor to the observation.
\<close>

definition extract_features :: "Q_Net \<Rightarrow> real tensor \<Rightarrow> error + real tensor" where
  "extract_features self obs = extractor_apply (Q_Net.features_extractor self) obs"

definition forward :: "Q_Net \<Rightarrow> real tensor \<Rightarrow> error + real tensor" where
  "forward self obs =
     (case extract_features self obs of
        Inl e \<Rightarrow> Inl e
      | Inr features \<Rightarrow> nn_Sequential (Q_Net.q_net self) features)"

text \<open>
  \<open>Q_Net.predict\<close>. The condition \<open>not deterministic and np.random.rand() < self.epsilon\<close>
  calls the generator only when \<open>deterministic\<close> is false. The network is not changed; the
  random sources are, also when the call raises.
\<close>

definition predict ::
  "Q_Net \<Rightarrow> real tensor \<Rightarrow> bool \<Rightarrow> random_state \<Rightarrow> (error + nat tensor) \<times> random_state" where
  "predict self observation deterministic rs =
     (let (explore, rs1) =
            (if \<not> deterministic
             then (let (u, rs') = np_random_rand rs in (u < Q_Net.epsilon self, rs'))
             else (False, rs))
      in if explore then
           (if ndim observation > 1 then
              (let (acts, rs2) =
                     sample_list (Q_Net.action_space self) (shape0 observation) rs1
               in (reshape_1 (T1 acts), rs2))
            else
              (let (a, rs2) = space_sample (Q_Net.action_space self) rs1
               in (reshape_1 (T0 a), rs2)))
         else
           ((case extract_features self observation of
               Inl e \<Rightarrow> Inl e
             | Inr features \<Rightarrow>
                 (case nn_Sequential (Q_Net.q_net self) features of
                    Inl e \<Rightarrow> Inl e
                  | Inr q_val \<Rightarrow>
                      (case th_argmax_dim1 q_val of
                         Inl e \<Rightarrow> Inl e
                       | Inr action \<Rightarrow> Inr (reshape_flat action)))), rs1))"

text \<open>\<open>state_dict()\<close> and \<open>load_state_dict(sd)\<close> of a \<open>Q_Net\<close> (strict: no unexpected key).\<close>

definition state_dict :: "Q_Net \<Rightarrow> (param_key \<times> real tensor) list" where
  "state_dict self = state_dict_from 0 (Q_Net.q_net self)"

definition load_state_dict :: "Q_Net \<Rightarrow> (param_key \<times> real tensor) list \<Rightarrow> error + Q_Net" where
  "load_state_dict self sd =
     (if list_all (\<lambda>k. k \<in> set (map fst (state_dict self))) (map fst sd) then
        (case load_layers 0 (Q_Net.q_net self) (map_of sd) of
           Inl e \<Rightarrow> Inl e
         | Inr ls \<Rightarrow> Inr (self\<lparr>Q_Net.q_net := ls\<rparr>))
      else Inl RuntimeError)"

subsection \<open>Class DQNPolicy\<close>

text \<open>
  The attributes \<open>__init__\<close> sets before it calls \<open>_build\<close>; \<open>_build\<close> adds the two
  networks and the optimizer. A value of type \<open>DQNPolicy\<close> is a constructed policy.
\<close>

record DQNPolicy_attrs =
  observation_space :: space
  action_space :: space
  device :: string
  net_arch :: "int list"
  activation_fn :: activation
  features_extractor :: extractor
  features_dim :: int
  action_dim :: int
  normalize_images :: bool
  epsilon :: real
  net_args :: Q_Net_kwargs
  log_std_init :: real

record DQNPolicy = DQNPolicy_attrs +
  q_net :: Q_Net
  q_net_target :: Q_Net
  optimizer :: optimizer

text \<open>\<open>make_q_net\<close>: \<open>Q_Net(**self.net_args).to(self.device)\<close>\<close>

definition make_q_net ::
  "'a DQNPolicy_attrs_scheme \<Rightarrow> random_state \<Rightarrow> error + Q_Net \<times> random_state" where
  "make_q_net self rs = Q_Net_init (net_args self) rs"

text \<open>
  \<open>self.parameters()\<close> of a policy whose submodules are \<open>features_extractor\<close> (no
  parameter), \<open>q_net\<close> and \<open>q_net_target\<close>, in the order of their registration.
\<close>

definition named_parameters :: "string \<Rightarrow> Q_Net \<Rightarrow> param_ref list" where
  "named_parameters path net = map (\<lambda>(k, v). (path, k)) (state_dict net)"

definition policy_parameters :: "Q_Net \<Rightarrow> Q_Net \<Rightarrow> param_ref list" where
  "policy_parameters online target =
     named_parameters ''q_net'' online @ named_parameters ''q_net_target'' target"

definition parameters :: "DQNPolicy \<Rightarrow> param_ref list" where
  "parameters self = policy_parameters (q_net self) (q_net_target self)"

text \<open>
  \<open>_build\<close>, on an object that has the attributes \<open>__init__\<close> has set: on the way to a
  constructed policy, or a constructed policy on which the method is called again. The
  result is the policy as it is when the method returns.
\<close>

definition DQNPolicy_build ::
  "'a DQNPolicy_attrs_scheme \<Rightarrow> (real \<Rightarrow> real) \<Rightarrow> random_state \<Rightarrow>
   error + DQNPolicy \<times> random_state" where
  "DQNPolicy_build self lr_schedule rs =
     (case make_q_net self rs of
        Inl e \<Rightarrow> Inl e
      | Inr (online, rs1) \<Rightarrow>
          (case make_q_net self rs1 of
             Inl e \<Rightarrow> Inl e
           | Inr (fresh, rs2) \<Rightarrow>
               (case load_state_dict fresh (state_dict online) of
                  Inl e \<Rightarrow> Inl e
                | Inr target \<Rightarrow>
                    (case th_optim_Adam (policy_parameters online target) (lr_schedule 1) of
                       Inl e \<Rightarrow> Inl e
                     | Inr opt \<Rightarrow>
                         Inr (\<lparr>observation_space = observation_space self,
                               action_space = action_space self,
                               device = device self,
                               net_arch = net_arch self,
                               activation_fn = activation_fn self,
                               features_extractor = features_extractor self,
                               features_dim = features_dim self,
                               action_dim = action_dim self,
                               normalize_images = normalize_images self,
                               epsilon = epsilon self,
                               net_args = net_args self,
                               log_std_init = log_std_init self,
                               q_net = online,
                               q_net_target = target,
                               optimizer = opt\<rparr>, rs2)))))"

text \<open>
  \<open>DQNPolicy.__init__\<close>. Reading \<open>self.action_space.n\<close> raises AttributeError when the
  space has no such attribute.
\<close>

definition DQNPolicy_init ::
  "space \<Rightarrow> space \<Rightarrow> (real \<Rightarrow> real) \<Rightarrow> int list option \<Rightarrow> string \<Rightarrow> bool \<Rightarrow> activation \<Rightarrow>
   real \<Rightarrow> real \<Rightarrow> bool \<Rightarrow> random_state \<Rightarrow> error + DQNPolicy \<times> random_state" where
  "DQNPolicy_init obs_space act_space lr_schedule arch dev use_sde act_fn log_std eps norm_images rs =
     (let arch1 = (case arch of None \<Rightarrow> [256, 256] | Some a \<Rightarrow> a);
          fe = Flatten;
          fdim = get_obs_dim obs_space
      in case space_n act_space of
           Inl e \<Rightarrow> Inl e
         | Inr adim \<Rightarrow>
             DQNPolicy_build
               \<lparr>observation_space = obs_space,
                action_space = act_space,
                device = dev,
                net_arch = arch1,
                activation_fn = act_fn,
                features_extractor = fe,
                features_dim = fdim,
                action_dim = adim,
                normalize_images = norm_images,
                epsilon = eps,
                net_args =
                  \<lparr>Q_Net_kwargs.observation_space = obs_space,
                   Q_Net_kwargs.action_space = act_space,
                   Q_Net_kwargs.features_extractor = fe,
                   Q_Net_kwargs.features_dim = fdim,
                   Q_Net_kwargs.action_dim = adim,
                   Q_Net_kwargs.net_arch = Some arch1,
                   Q_Net_kwargs.device = dev,
                   Q_Net_kwargs.activation_fn = act_fn,
                   Q_Net_kwargs.epsilon = eps,
                   Q_Net_kwargs.normalize_images = norm_images\<rparr>,
                log_std_init = log_std\<rparr>
               lr_schedule rs)"

definition update_epsilon :: "DQNPolicy \<Rightarrow> real \<Rightarrow> DQNPolicy" where
  "update_epsilon self eps =
     self\<lparr>q_net_target := (q_net_target self)\<lparr>Q_Net.epsilon := eps\<rparr>,
          q_net := (q_net self)\<lparr>Q_Net.epsilon := eps\<rparr>,
          epsilon := eps\<rparr>"

definition q_predict ::
  "DQNPolicy \<Rightarrow> real tensor \<Rightarrow> bool \<Rightarrow> random_state \<Rightarrow> (error + nat tensor) \<times> random_state" where
  "q_predict self observation deterministic rs = predict (q_net self) observation deterministic rs"

text \<open>\<open>_predict\<close>\<close>

definition DQNPolicy_predict ::
  "DQNPolicy \<Rightarrow> real tensor \<Rightarrow> bool \<Rightarrow> random_state \<Rightarrow> (error + nat tensor) \<times> random_state" where
  "DQNPolicy_predict self observation deterministic rs =
     predict (q_net self) observation deterministic rs"

text \<open>
  Modelled from the spec: \<open>predict\<close> of a policy is a method of the base class, which is
  not part of the module; by the spec it always delegates to the online network's action
  selection, which is \<open>_predict\<close>.
\<close>

definition BasePolicy_predict ::
  "DQNPolicy \<Rightarrow> real tensor \<Rightarrow> bool \<Rightarrow> random_state \<Rightarrow> (error + nat tensor) \<times> random_state" where
  "BasePolicy_predict self observation deterministic rs =
     DQNPolicy_predict self observation deterministic rs"

definition q_forward ::
  "DQNPolicy \<Rightarrow> real tensor \<Rightarrow> random_state \<Rightarrow> (error + nat tensor) \<times> random_state" where
  "q_forward self obs rs = BasePolicy_predict self obs False rs"

subsection \<open>Calls of a constructed policy\<close>

text \<open>
  The three stored exploration rates agree: the policy's, the online network's and the
  target network's.
\<close>

definition epsilon_synced :: "DQNPolicy \<Rightarrow> bool" where
  "epsilon_synced p \<longleftrightarrow>
     Q_Net.epsilon (q_net p) = epsilon p \<and> Q_Net.epsilon (q_net_target p) = epsilon p"

text \<open>
  The state that a call of \<open>_build\<close> on a constructed policy leaves. The method assigns
  \<open>q_net\<close>, \<open>q_net_target\<close> and \<open>optimizer\<close> one after the other, so an exception
  keeps the assignments made before it. Where \<open>_build\<close> returns, this is the policy that
  \<open>DQNPolicy_build\<close> gives (lemma \<open>rebuild_returns\<close>). The two networks are made from the
  same \<open>net_args\<close>, so \<open>load_state_dict\<close> does not raise here (lemmas
  \<open>make_q_net_twice\<close> and \<open>resync\<close>).
\<close>

definition rebuild ::
  "DQNPolicy \<Rightarrow> (real \<Rightarrow> real) \<Rightarrow> random_state \<Rightarrow> DQNPolicy \<times> random_state" where
  "rebuild self lr_schedule rs =
     (case make_q_net self rs of
        Inl e \<Rightarrow> (self, rs)
      | Inr (online, rs1) \<Rightarrow>
          (case make_q_net self rs1 of
             Inl e \<Rightarrow> (self\<lparr>q_net := online\<rparr>, rs1)
           | Inr (fresh, rs2) \<Rightarrow>
               (case load_state_dict fresh (state_dict online) of
                  Inl e \<Rightarrow> (self\<lparr>q_net := online, q_net_target := fresh\<rparr>, rs2)
                | Inr target \<Rightarrow>
                    (case th_optim_Adam (policy_parameters online target) (lr_schedule 1) of
                       Inl e \<Rightarrow> (self\<lparr>q_net := online, q_net_target := target\<rparr>, rs2)
                     | Inr opt \<Rightarrow>
                         (self\<lparr>q_net := online, q_net_target := target, optimizer := opt\<rparr>,
                          rs2)))))"

text \<open>
  What a caller can do with a constructed policy: call one of the methods the class
  defines (the constructor apart, which makes a policy). \<open>update_epsilon\<close> assigns the three rates and \<open>_build\<close> assigns the two networks
  and the optimizer; the other methods assign nothing and advance the random sources.
  \<open>run_call\<close> drops the value a call returns or the exception it raises and keeps the state
  it leaves.
\<close>

datatype policy_call =
    Call_build "real \<Rightarrow> real"
  | Call_update_epsilon real
  | Call_make_q_net
  | Call_q_forward "real tensor"
  | Call_q_predict "real tensor" bool
  | Call_predict "real tensor" bool

fun run_call :: "policy_call \<Rightarrow> DQNPolicy \<times> random_state \<Rightarrow> DQNPolicy \<times> random_state" where
  "run_call (Call_build lr_schedule) (p, rs) = rebuild p lr_schedule rs"
| "run_call (Call_update_epsilon x) (p, rs) = (update_epsilon p x, rs)"
| "run_call Call_make_q_net (p, rs) =
     (p, case make_q_net p rs of Inl e \<Rightarrow> rs | Inr (n, rs1) \<Rightarrow> rs1)"
| "run_call (Call_q_forward obs) (p, rs) = (p, snd (q_forward p obs rs))"
| "run_call (Call_q_predict obs deterministic) (p, rs) = (p, snd (q_predict p obs deterministic rs))"
| "run_call (Call_predict obs deterministic) (p, rs) =
     (p, snd (DQNPolicy_predict p obs deterministic rs))"

subsection \<open>The shape of a layer, and inputs for the examples\<close>

text \<open>What two layers built from the same arguments share: everything but the values.\<close>

fun layer_shape :: "layer \<Rightarrow> (nat \<times> nat \<times> nat list \<times> nat) + activation" where
  "layer_shape (Linear d_in d_out W b) = Inl (d_in, d_out, map length W, length b)"
| "layer_shape (Activation a) = Inr a"

text \<open>
  A random state whose initialisation stream is \<open>0, 1, 2, \<dots>\<close>, whose uniform draws are
  all \<open>0\<close> and whose action samples alternate; and the construction of a policy over a
  one-dimensional observation with one hidden unit, learning rate \<open>1/1000\<close>.
\<close>

abbreviation example_random :: random_state where
  "example_random \<equiv>
     \<lparr>np_rand = (\<lambda>i. 0), np_rand_calls = 0,
      space_samples = (\<lambda>i. i mod 2), space_sample_calls = 0,
      torch_init = (\<lambda>i. real i), torch_init_calls = 0\<rparr>"

abbreviation example_init :: "space \<Rightarrow> real \<Rightarrow> error + DQNPolicy \<times> random_state" where
  "example_init act_space eps \<equiv>
     DQNPolicy_init (Box [1]) act_space (\<lambda>progress. 1 / 1000) (Some [1]) ''cpu'' False ReLU 0
       eps True example_random"

text \<open>
  A value network with four actions whose Q-values are \<open>[0.1, 0.9, 0.9, 0.2]\<close> on the
  observation \<open>[0]\<close> and \<open>[1, 1, 0.9, 0.2]\<close> on the observation \<open>[1]\<close>.
\<close>

abbreviation example_net :: Q_Net where
  "example_net \<equiv>
     \<lparr>Q_Net.observation_space = Box [1], Q_Net.action_space = Discrete 4,
      Q_Net.device = ''cpu'', Q_Net.net_arch = [1], Q_Net.activation_fn = ReLU,
      Q_Net.features_extractor = Flatten, Q_Net.features_dim = 1, Q_Net.action_dim = 4,
      Q_Net.normalize_images = True, Q_Net.epsilon = 0,
      Q_Net.q_net =
        [Linear 1 1 [[1]] [0], Activation ReLU,
         Linear 1 4 [[9 / 10], [1 / 10], [0], [0]] [1 / 10, 9 / 10, 9 / 10, 2 / 10]]\<rparr>"

section \<open>Properties\<close>

subsection \<open>State dictionaries and the hard synchronisation\<close>

lemma state_dict_from_index: "(k, v) \<in> set (state_dict_from i ls) \<Longrightarrow> i \<le> fst k"
proof (induction ls arbitrary: i)
  case Nil
  then show ?case by simp
next
  case (Cons l ls)
  then show ?case by (cases l) (fastforce dest: Suc_leD)+
qed

lemma state_dict_from_distinct: "distinct (map fst (state_dict_from i ls))"
proof (induction ls arbitrary: i)
  case Nil
  then show ?case by simp
next
  case (Cons l ls)
  have "\<And>kd v. ((i, kd), v) \<notin> set (state_dict_from (Suc i) ls)"
    using state_dict_from_index by fastforce
  with Cons show ?case by (cases l) (auto simp: image_iff)
qed

lemma state_dict_from_lookup:
  "(k, v) \<in> set (state_dict_from i ls) \<Longrightarrow> map_of (state_dict_from i ls) k = Some v"
  by (simp add: state_dict_from_distinct)

lemma state_dict_from_keys:
  "map layer_shape ls = map layer_shape lo \<Longrightarrow>
   map fst (state_dict_from i ls) = map fst (state_dict_from i lo)"
proof (induction ls arbitrary: lo i)
  case Nil
  then show ?case by simp
next
  case (Cons l ls)
  then obtain l' lo' where lo: "lo = l' # lo'" by (cases lo) auto
  with Cons.prems have "layer_shape l = layer_shape l'" "map layer_shape ls = map layer_shape lo'"
    by auto
  with Cons.IH lo show ?case by (cases l; cases l') auto
qed

lemma load_layers_same:
  "map layer_shape ls = map layer_shape lo \<Longrightarrow>
   (\<And>k v. (k, v) \<in> set (state_dict_from i lo) \<Longrightarrow> sd k = Some v) \<Longrightarrow>
   load_layers i ls sd = Inr lo"
proof (induction ls arbitrary: lo i)
  case Nil
  then show ?case by simp
next
  case (Cons l ls)
  then obtain l' lo' where lo: "lo = l' # lo'" by (cases lo) auto
  with Cons.prems have sh: "layer_shape l = layer_shape l'" "map layer_shape ls = map layer_shape lo'"
    by auto
  show ?case
  proof (cases l')
    case (Linear d_in d_out W b)
    with sh obtain W0 b0 where l: "l = Linear d_in d_out W0 b0" "map length W0 = map length W" "length b0 = length b"
      by (cases l) auto
    have "sd (i, Weight) = Some (T2 W)" "sd (i, Bias) = Some (T1 b)"
      using Cons.prems(2) lo Linear by auto
    moreover have "load_layers (Suc i) ls sd = Inr lo'"
      using Cons.IH [OF sh(2)] Cons.prems(2) lo Linear by auto
    ultimately show ?thesis using l lo Linear by simp
  next
    case (Activation a)
    with sh have l: "l = Activation a" by (cases l) auto
    have "load_layers (Suc i) ls sd = Inr lo'"
      using Cons.IH [OF sh(2)] Cons.prems(2) lo Activation by auto
    then show ?thesis using l lo Activation by simp
  qed
qed

lemma nn_Linear_shape:
  "layer_shape (fst (nn_Linear d_in d_out rs)) = Inl (d_in, d_out, replicate d_out d_in, d_out)"
  by (simp add: nn_Linear_def Let_def map_replicate_const comp_def)

lemma mlp_layers_shape:
  "map layer_shape (fst (mlp_layers d hs out act rs)) = map layer_shape (fst (mlp_layers d hs out act rs'))"
proof (induction hs arbitrary: d rs rs')
  case Nil
  show ?case using nn_Linear_shape [of d out rs] nn_Linear_shape [of d out rs']
    by (simp add: split_beta)
next
  case (Cons h hs)
  show ?case
    using nn_Linear_shape [of d h rs] nn_Linear_shape [of d h rs']
      Cons.IH [of h "snd (nn_Linear d h rs)" "snd (nn_Linear d h rs')"]
    by (simp add: split_beta Let_def)
qed

lemma resync:
  assumes "map layer_shape (Q_Net.q_net t) = map layer_shape (Q_Net.q_net s)"
  shows "load_state_dict t (state_dict s) = Inr (t\<lparr>Q_Net.q_net := Q_Net.q_net s\<rparr>)"
proof -
  have "map fst (state_dict s) = map fst (state_dict t)"
    using state_dict_from_keys [OF assms, of 0] by (simp add: state_dict_def)
  then have "list_all (\<lambda>k. k \<in> set (map fst (state_dict t))) (map fst (state_dict s))"
    by (simp add: list_all_iff)
  moreover have "load_layers 0 (Q_Net.q_net t) (map_of (state_dict s)) = Inr (Q_Net.q_net s)"
    using load_layers_same [OF assms, of 0 "map_of (state_dict s)"] state_dict_from_lookup
    by (simp add: state_dict_def)
  ultimately show ?thesis by (simp add: load_state_dict_def)
qed

lemma make_q_net_twice:
  assumes "make_q_net self rs = Inr (n1, rs1)" "make_q_net self rs' = Inr (n2, rs2)"
  shows "n2\<lparr>Q_Net.q_net := Q_Net.q_net n1\<rparr> = n1"
    and "map layer_shape (Q_Net.q_net n2) = map layer_shape (Q_Net.q_net n1)"
proof -
  let ?kw = "net_args self"
  let ?arch = "case Q_Net_kwargs.net_arch ?kw of None \<Rightarrow> [64, 64] | Some a \<Rightarrow> a"
  let ?mk = "mlp_layers (nat (Q_Net_kwargs.features_dim ?kw)) (map nat ?arch)
               (nat (Q_Net_kwargs.action_dim ?kw)) (Q_Net_kwargs.activation_fn ?kw)"
  from assms(1) have n1: "Q_Net.q_net n1 = fst (?mk rs)" "n1 = n1\<lparr>Q_Net.q_net := fst (?mk rs)\<rparr>"
    by (auto simp: make_q_net_def Q_Net_init_def create_mlp_def Let_def split_beta
        split: if_splits)
  from assms(2) have n2: "Q_Net.q_net n2 = fst (?mk rs')"
    by (auto simp: make_q_net_def Q_Net_init_def create_mlp_def Let_def split_beta
        split: if_splits)
  show "map layer_shape (Q_Net.q_net n2) = map layer_shape (Q_Net.q_net n1)"
    unfolding n1(1) n2 by (rule mlp_layers_shape)
  from assms show "n2\<lparr>Q_Net.q_net := Q_Net.q_net n1\<rparr> = n1"
    by (auto simp: make_q_net_def Q_Net_init_def create_mlp_def Let_def split_beta
        split: if_splits)
qed


lemma make_q_net_epsilon:
  "make_q_net self rs = Inr (n, rs1) \<Longrightarrow> Q_Net.epsilon n = Q_Net_kwargs.epsilon (net_args self)"
  by (auto simp: make_q_net_def Q_Net_init_def Let_def split: sum.splits)

lemma make_q_net_again:
  "make_q_net self rs = Inr (n, rs1) \<Longrightarrow> \<exists>n' rs2. make_q_net self rs' = Inr (n', rs2)"
  by (auto simp: make_q_net_def Q_Net_init_def create_mlp_def Let_def split_beta split: if_splits)

lemma DQNPolicy_build_Inr:
  assumes "DQNPolicy_build self lr_schedule rs = Inr (p, rs')"
  obtains rs1 fresh where
    "make_q_net self rs = Inr (q_net p, rs1)"
    "make_q_net self rs1 = Inr (fresh, rs')"
    "load_state_dict fresh (state_dict (q_net p)) = Inr (q_net_target p)"
    "optimizer p = \<lparr>param_groups = policy_parameters (q_net p) (q_net_target p), lr = lr_schedule 1\<rparr>"
    "net_args p = net_args self"
    "epsilon p = epsilon self"
proof -
  from assms obtain online rs1 where a: "make_q_net self rs = Inr (online, rs1)"
    by (auto simp: DQNPolicy_build_def split: sum.splits)
  from assms a obtain fresh rs2 where b: "make_q_net self rs1 = Inr (fresh, rs2)"
    by (auto simp: DQNPolicy_build_def split: sum.splits)
  from assms a b obtain target where c: "load_state_dict fresh (state_dict online) = Inr target"
    by (auto simp: DQNPolicy_build_def split: sum.splits)
  from assms a b c obtain opt where
    d: "th_optim_Adam (policy_parameters online target) (lr_schedule 1) = Inr opt"
    by (auto simp: DQNPolicy_build_def split: sum.splits)
  from d have opt: "opt = \<lparr>param_groups = policy_parameters online target, lr = lr_schedule 1\<rparr>"
    by (auto simp: th_optim_Adam_def split: if_splits)
  from assms a b c d have
    "q_net p = online" "q_net_target p = target" "optimizer p = opt" "rs' = rs2"
    "net_args p = net_args self" "epsilon p = epsilon self"
    by (auto simp: DQNPolicy_build_def)
  with a b c opt that show thesis by blast
qed

lemma DQNPolicy_build_target:
  assumes "DQNPolicy_build self lr_schedule rs = Inr (p, rs')"
  shows "q_net_target p = q_net p"
proof -
  from assms obtain rs1 fresh where
    a: "make_q_net self rs = Inr (q_net p, rs1)" and
    b: "make_q_net self rs1 = Inr (fresh, rs')" and
    c: "load_state_dict fresh (state_dict (q_net p)) = Inr (q_net_target p)"
    by (rule DQNPolicy_build_Inr)
  from make_q_net_twice [OF a b] resync [of fresh "q_net p"] c show ?thesis by simp
qed

lemma DQNPolicy_init_Inr:
  assumes "DQNPolicy_init obs_space act_space lr_schedule arch dev use_sde act_fn log_std eps norm_images rs
             = Inr (p, rs')"
  obtains self :: DQNPolicy_attrs where
    "DQNPolicy_build self lr_schedule rs = Inr (p, rs')"
    "epsilon self = eps"
    "Q_Net_kwargs.epsilon (net_args self) = eps"
    "space_n act_space = Inr (Q_Net_kwargs.action_dim (net_args self))"
  using assms
  by (auto simp: DQNPolicy_init_def Let_def split: sum.splits)


lemma target_sync_steps:
  assumes "DQNPolicy_init obs_space act_space lr_schedule arch dev use_sde act_fn log_std eps
             norm_images rs = Inr (p, rs')"
  shows "\<exists>rs1. make_q_net p rs = Inr (q_net p, rs1)"
proof -
  from assms obtain self :: DQNPolicy_attrs where
    b: "DQNPolicy_build self lr_schedule rs = Inr (p, rs')"
    by (rule DQNPolicy_init_Inr)
  from b obtain rs1 where
    m: "make_q_net self rs = Inr (q_net p, rs1)" and na: "net_args p = net_args self"
    by (rule DQNPolicy_build_Inr)
  from na have "make_q_net p = make_q_net self"
    by (simp add: make_q_net_def fun_eq_iff)
  with m show ?thesis by auto
qed

subsection \<open>Construction of a policy\<close>

lemmas construction_defs =
  DQNPolicy_init_def DQNPolicy_build_def make_q_net_def Q_Net_init_def create_mlp_def
  nn_Linear_def load_state_dict_def state_dict_def th_optim_Adam_def policy_parameters_def
  named_parameters_def Let_def

text \<open>
  Claim C1. Whenever the construction of a policy completes, the state dictionary of the
  target network equals that of the online network, key by key and value by value. The
  online network is made first; the target network is made afterwards, from the random
  state the first construction left, so with its own initial parameters; the copy of the
  online network's state dictionary then overwrites them.
\<close>

theorem target_equals_online_after_construction:
  assumes "DQNPolicy_init obs_space act_space lr_schedule arch dev use_sde act_fn log_std eps
             norm_images rs = Inr (p, rs')"
  shows "state_dict (q_net_target p) = state_dict (q_net p) \<and>
         (\<exists>rs1 fresh. make_q_net p rs = Inr (q_net p, rs1) \<and>
                       make_q_net p rs1 = Inr (fresh, rs') \<and>
                       load_state_dict fresh (state_dict (q_net p)) = Inr (q_net_target p))"
proof -
  from assms obtain self :: DQNPolicy_attrs where
    b: "DQNPolicy_build self lr_schedule rs = Inr (p, rs')"
    by (rule DQNPolicy_init_Inr)
  from b obtain rs1 fresh where
    m: "make_q_net self rs = Inr (q_net p, rs1)" "make_q_net self rs1 = Inr (fresh, rs')"
       "load_state_dict fresh (state_dict (q_net p)) = Inr (q_net_target p)"
       and na: "net_args p = net_args self"
    by (rule DQNPolicy_build_Inr)
  from na have "make_q_net p = make_q_net self"
    by (simp add: make_q_net_def fun_eq_iff)
  with m DQNPolicy_build_target [OF b] show ?thesis by auto
qed

text \<open>
  An instance: the online network takes the initial values \<open>0, \<dots>, 5\<close>; a network made
  from the random state the first one left takes \<open>6, \<dots>, 11\<close>; after construction the
  target holds \<open>0, \<dots>, 5\<close>.
\<close>

theorem target_equals_online_witness:
  "case example_init (Discrete 2) (1 / 20) of
     Inl e \<Rightarrow> False
   | Inr (p, rs') \<Rightarrow>
       state_dict (q_net_target p) = state_dict (q_net p) \<and>
       state_dict (q_net p) =
         [((0, Weight), T2 [[0]]), ((0, Bias), T1 [1]),
          ((2, Weight), T2 [[2], [3]]), ((2, Bias), T1 [4, 5])] \<and>
       (case make_q_net p (rs'\<lparr>torch_init_calls := 6\<rparr>) of
          Inl e \<Rightarrow> False
        | Inr (fresh, rs2) \<Rightarrow>
            state_dict fresh =
              [((0, Weight), T2 [[6]]), ((0, Bias), T1 [7]),
               ((2, Weight), T2 [[8], [9]]), ((2, Bias), T1 [10, 11])])"
proof -
  obtain p rs' where e: "example_init (Discrete 2) (1 / 20) = Inr (p, rs')"
    by (simp add: construction_defs)
  have "state_dict (q_net_target p) = state_dict (q_net p)"
    using target_equals_online_after_construction [OF e] by simp
  moreover from e have "state_dict (q_net p) =
         [((0, Weight), T2 [[0]]), ((0, Bias), T1 [1]),
          ((2, Weight), T2 [[2], [3]]), ((2, Bias), T1 [4, 5])]"
    by (auto simp: construction_defs eval_nat_numeral)
  moreover from e have "(case make_q_net p (rs'\<lparr>torch_init_calls := 6\<rparr>) of
          Inl e \<Rightarrow> False
        | Inr (fresh, rs2) \<Rightarrow>
            state_dict fresh =
              [((0, Weight), T2 [[6]]), ((0, Bias), T1 [7]),
               ((2, Weight), T2 [[8], [9]]), ((2, Bias), T1 [10, 11])])"
    by (auto simp: construction_defs eval_nat_numeral)
  ultimately show ?thesis using e by simp
qed

text \<open>
  Claim C2, as the code has it. The optimizer is constructed over \<open>self.parameters()\<close>,
  the parameters of the whole policy: those of the online network followed by those of
  the target network, which are never empty. Its learning rate is \<open>lr_schedule(1)\<close>.
\<close>

theorem optimizer_over_all_policy_parameters:
  assumes "DQNPolicy_init obs_space act_space lr_schedule arch dev use_sde act_fn log_std eps
             norm_images rs = Inr (p, rs')"
  shows "param_groups (optimizer p) = parameters p \<and>
         parameters p =
           named_parameters ''q_net'' (q_net p) @
           named_parameters ''q_net_target'' (q_net_target p) \<and>
         named_parameters ''q_net_target'' (q_net_target p) \<noteq> [] \<and>
         lr (optimizer p) = lr_schedule 1"
proof -
  from assms obtain self :: DQNPolicy_attrs where
    b: "DQNPolicy_build self lr_schedule rs = Inr (p, rs')"
    by (rule DQNPolicy_init_Inr)
  from b have opt: "optimizer p =
      \<lparr>param_groups = policy_parameters (q_net p) (q_net_target p), lr = lr_schedule 1\<rparr>"
    by (rule DQNPolicy_build_Inr)
  from b have "th_optim_Adam (policy_parameters (q_net p) (q_net_target p)) (lr_schedule 1)
                 = Inr (optimizer p)"
    by (auto simp: DQNPolicy_build_def split: sum.splits)
  then have ne: "policy_parameters (q_net p) (q_net_target p) \<noteq> []"
    by (auto simp: th_optim_Adam_def split: if_splits)
  have "q_net_target p = q_net p" using b by (rule DQNPolicy_build_target)
  with ne have "named_parameters ''q_net_target'' (q_net_target p) \<noteq> []"
    by (auto simp: policy_parameters_def named_parameters_def)
  with opt show ?thesis by (simp add: parameters_def policy_parameters_def)
qed

text \<open>An instance: eight parameters, four of each network, at rate \<open>1/1000\<close>.\<close>

theorem optimizer_over_all_policy_parameters_witness:
  "case example_init (Discrete 2) (1 / 20) of
     Inl e \<Rightarrow> False
   | Inr (p, rs') \<Rightarrow>
       param_groups (optimizer p) = parameters p \<and>
       parameters p =
         [(''q_net'', 0, Weight), (''q_net'', 0, Bias),
          (''q_net'', 2, Weight), (''q_net'', 2, Bias),
          (''q_net_target'', 0, Weight), (''q_net_target'', 0, Bias),
          (''q_net_target'', 2, Weight), (''q_net_target'', 2, Bias)] \<and>
       lr (optimizer p) = 1 / 1000"
proof -
  obtain p rs' where e: "example_init (Discrete 2) (1 / 20) = Inr (p, rs')"
    by (simp add: construction_defs)
  have "param_groups (optimizer p) = parameters p \<and> lr (optimizer p) = 1 / 1000"
    using optimizer_over_all_policy_parameters [OF e] by simp
  moreover from e have "parameters p =
         [(''q_net'', 0, Weight), (''q_net'', 0, Bias),
          (''q_net'', 2, Weight), (''q_net'', 2, Bias),
          (''q_net_target'', 0, Weight), (''q_net_target'', 0, Bias),
          (''q_net_target'', 2, Weight), (''q_net_target'', 2, Bias)]"
    by (auto simp: construction_defs parameters_def eval_nat_numeral)
  ultimately show ?thesis using e by simp
qed

text \<open>
  Claim C2 as stated fails: after the example construction the optimizer holds the weight
  of the target network's first layer, which is no parameter of the online network.
\<close>

theorem optimizer_online_only_counterexample:
  "case example_init (Discrete 2) (1 / 20) of
     Inl e \<Rightarrow> False
   | Inr (p, rs') \<Rightarrow>
       (''q_net_target'', 0, Weight) \<in> set (param_groups (optimizer p)) \<and>
       (''q_net_target'', 0, Weight) \<notin> set (named_parameters ''q_net'' (q_net p))"
  by (simp add: construction_defs eval_nat_numeral)

subsection \<open>The exploration rate\<close>

lemma update_epsilon_synced: "epsilon_synced (update_epsilon p x)"
  by (simp add: epsilon_synced_def update_epsilon_def)

lemma DQNPolicy_init_synced:
  assumes "DQNPolicy_init obs_space act_space lr_schedule arch dev use_sde act_fn log_std eps
             norm_images rs = Inr (p, rs')"
  shows "epsilon p = eps" "Q_Net.epsilon (q_net p) = eps" "Q_Net.epsilon (q_net_target p) = eps"
    "Q_Net_kwargs.epsilon (net_args p) = eps"
proof -
  from assms obtain self :: DQNPolicy_attrs where
    b: "DQNPolicy_build self lr_schedule rs = Inr (p, rs')" and
    e: "epsilon self = eps" "Q_Net_kwargs.epsilon (net_args self) = eps"
    by (rule DQNPolicy_init_Inr)
  from b obtain rs1 where
    m: "make_q_net self rs = Inr (q_net p, rs1)" and
    k: "net_args p = net_args self" "epsilon p = epsilon self"
    by (rule DQNPolicy_build_Inr)
  from e k show "epsilon p = eps" "Q_Net_kwargs.epsilon (net_args p) = eps" by simp_all
  from make_q_net_epsilon [OF m] e show o: "Q_Net.epsilon (q_net p) = eps" by simp
  from DQNPolicy_build_target [OF b] o show "Q_Net.epsilon (q_net_target p) = eps" by simp
qed

text \<open>\<open>_build\<close>, called again: where it returns, \<open>rebuild\<close> is its result.\<close>

lemma rebuild_returns:
  fixes p :: DQNPolicy
  assumes "DQNPolicy_build p lr_schedule rs = Inr (p', rs')"
  shows "rebuild p lr_schedule rs = (p', rs')"
  using assms
  by (cases p) (auto simp: DQNPolicy_build_def rebuild_def split: sum.splits)

lemma rebuild_frame:
  "net_args (fst (rebuild p lr_schedule rs)) = net_args p"
  "epsilon (fst (rebuild p lr_schedule rs)) = epsilon p"
  by (simp_all add: rebuild_def split: sum.splits prod.splits)

lemma rebuild_networks:
  "rebuild p lr_schedule rs = (p, rs) \<or>
   (\<exists>online rs1. make_q_net p rs = Inr (online, rs1) \<and>
                  q_net (fst (rebuild p lr_schedule rs)) = online \<and>
                  q_net_target (fst (rebuild p lr_schedule rs)) = online)"
proof (cases "make_q_net p rs")
  case (Inl e)
  then show ?thesis by (simp add: rebuild_def)
next
  case (Inr r)
  then obtain online rs1 where a: "make_q_net p rs = Inr (online, rs1)" by (cases r) auto
  from make_q_net_again [OF a] obtain fresh rs2 where
    b: "make_q_net p rs1 = Inr (fresh, rs2)" by blast
  from make_q_net_twice [OF a b] resync [of fresh online]
  have l: "load_state_dict fresh (state_dict online) = Inr online" by simp
  have "q_net (fst (rebuild p lr_schedule rs)) = online \<and>
        q_net_target (fst (rebuild p lr_schedule rs)) = online"
    using a b l by (simp add: rebuild_def split: sum.splits)
  with a show ?thesis by blast
qed

lemma DQNPolicy_build_epsilon:
  assumes "DQNPolicy_build self lr_schedule rs = Inr (p, rs')"
  shows "Q_Net.epsilon (q_net p) = Q_Net_kwargs.epsilon (net_args self) \<and>
         Q_Net.epsilon (q_net_target p) = Q_Net_kwargs.epsilon (net_args self) \<and>
         epsilon p = epsilon self"
proof -
  from assms obtain rs1 where
    m: "make_q_net self rs = Inr (q_net p, rs1)" and k: "epsilon p = epsilon self"
    by (rule DQNPolicy_build_Inr)
  from make_q_net_epsilon [OF m] DQNPolicy_build_target [OF assms] k show ?thesis by simp
qed

text \<open>The two networks' rates agree with each other after every call.\<close>

lemma run_call_networks_agree:
  assumes "Q_Net.epsilon (q_net (fst st)) = Q_Net.epsilon (q_net_target (fst st))"
  shows "Q_Net.epsilon (q_net (fst (run_call c st))) =
         Q_Net.epsilon (q_net_target (fst (run_call c st)))"
proof (cases st)
  case (Pair p rs)
  show ?thesis
  proof (cases c)
    case (Call_build f)
    from rebuild_networks [of p f rs] assms Pair Call_build show ?thesis by auto
  qed (use assms Pair in \<open>simp_all add: update_epsilon_def\<close>)
qed

lemma fold_run_call_networks_agree:
  "Q_Net.epsilon (q_net (fst st)) = Q_Net.epsilon (q_net_target (fst st)) \<Longrightarrow>
   Q_Net.epsilon (q_net (fst (fold run_call cs st))) =
   Q_Net.epsilon (q_net_target (fst (fold run_call cs st)))"
  by (induction cs arbitrary: st) (simp_all add: run_call_networks_agree)

text \<open>Every call but \<open>_build\<close> keeps the three rates equal.\<close>

lemma run_call_synced:
  "\<forall>f. c \<noteq> Call_build f \<Longrightarrow> epsilon_synced (fst st) \<Longrightarrow> epsilon_synced (fst (run_call c st))"
  by (cases c; cases st) (simp_all add: update_epsilon_synced)

lemma fold_run_call_synced:
  "\<forall>f. Call_build f \<notin> set cs \<Longrightarrow> epsilon_synced (fst st) \<Longrightarrow>
   epsilon_synced (fst (fold run_call cs st))"
proof (induction cs arbitrary: st)
  case Nil
  then show ?case by simp
next
  case (Cons c cs)
  from Cons.prems(1) have "\<forall>f. c \<noteq> Call_build f" "\<forall>f. Call_build f \<notin> set cs" by auto
  with Cons.IH [of "run_call c st"] run_call_synced [of c st] Cons.prems(2)
  show ?case by simp
qed

text \<open>
  Claim C5, as the code has it. After \<open>update_epsilon(x)\<close> the three stored rates are \<open>x\<close>,
  for every policy and every \<open>x\<close>; the call is one step, whose result is the only state a
  caller sees. The three rates agree after construction and after every sequence of calls
  of the policy's methods in which \<open>_build\<close> does not occur. After every sequence of calls
  the rates of the two networks agree with each other. A call of \<open>_build\<close> that returns
  gives both networks the rate that \<open>net_args\<close> holds and leaves the policy's own rate.
\<close>

theorem epsilon_kept_in_sync:
  assumes "DQNPolicy_init obs_space act_space lr_schedule arch dev use_sde act_fn log_std eps
             norm_images rs = Inr (p, rs')"
  shows "((\<forall>f. Call_build f \<notin> set calls) \<longrightarrow>
            epsilon_synced (fst (fold run_call calls (p, rs')))) \<and>
         Q_Net.epsilon (q_net (fst (fold run_call calls (p, rs')))) =
           Q_Net.epsilon (q_net_target (fst (fold run_call calls (p, rs')))) \<and>
         (\<forall>q x. Q_Net.epsilon (q_net (update_epsilon q x)) = x \<and>
                Q_Net.epsilon (q_net_target (update_epsilon q x)) = x \<and>
                epsilon (update_epsilon q x) = x) \<and>
         (\<forall>(q :: DQNPolicy) f rs0 q' rs1.
             DQNPolicy_build q f rs0 = Inr (q', rs1) \<longrightarrow>
               Q_Net.epsilon (q_net q') = Q_Net_kwargs.epsilon (net_args q) \<and>
               Q_Net.epsilon (q_net_target q') = Q_Net_kwargs.epsilon (net_args q) \<and>
               epsilon q' = epsilon q \<and> run_call (Call_build f) (q, rs0) = (q', rs1))"
proof -
  from DQNPolicy_init_synced [OF assms] have s: "epsilon_synced (fst (p, rs'))"
    by (simp add: epsilon_synced_def)
  then have a: "(\<forall>f. Call_build f \<notin> set calls) \<longrightarrow>
      epsilon_synced (fst (fold run_call calls (p, rs')))"
    using fold_run_call_synced by blast
  from s have "Q_Net.epsilon (q_net (fst (p, rs'))) = Q_Net.epsilon (q_net_target (fst (p, rs')))"
    by (simp add: epsilon_synced_def)
  then have b: "Q_Net.epsilon (q_net (fst (fold run_call calls (p, rs')))) =
           Q_Net.epsilon (q_net_target (fst (fold run_call calls (p, rs'))))"
    by (rule fold_run_call_networks_agree)
  have c: "\<forall>q x. Q_Net.epsilon (q_net (update_epsilon q x)) = x \<and>
                Q_Net.epsilon (q_net_target (update_epsilon q x)) = x \<and>
                epsilon (update_epsilon q x) = x"
    by (simp add: update_epsilon_def)
  have d: "\<forall>(q :: DQNPolicy) f rs0 q' rs1.
             DQNPolicy_build q f rs0 = Inr (q', rs1) \<longrightarrow>
               Q_Net.epsilon (q_net q') = Q_Net_kwargs.epsilon (net_args q) \<and>
               Q_Net.epsilon (q_net_target q') = Q_Net_kwargs.epsilon (net_args q) \<and>
               epsilon q' = epsilon q \<and> run_call (Call_build f) (q, rs0) = (q', rs1)"
    using DQNPolicy_build_epsilon rebuild_returns by (simp only: run_call.simps) blast
  from a b c d show ?thesis by (intro conjI)
qed

text \<open>
  An instance: the rate is \<open>1/20\<close> at construction and \<open>1/2\<close>, in all three places, after an
  update to \<open>1/2\<close> followed by a prediction and the making of a further network; after an
  update and a call of \<open>_build\<close> the two networks' rates still agree with each other.
\<close>

theorem epsilon_kept_in_sync_witness:
  "case example_init (Discrete 2) (1 / 20) of
     Inl e \<Rightarrow> False
   | Inr (p, rs') \<Rightarrow>
       epsilon p = 1 / 20 \<and> epsilon_synced p \<and>
       (let q = fst (fold run_call
                  [Call_update_epsilon (1 / 2), Call_q_predict (T2 [[1]]) False, Call_make_q_net]
                  (p, rs'))
        in epsilon_synced q \<and> epsilon q = 1 / 2 \<and> Q_Net.epsilon (q_net q) = 1 / 2 \<and>
           Q_Net.epsilon (q_net_target q) = 1 / 2) \<and>
       (let q = fst (fold run_call
                  [Call_update_epsilon (1 / 2), Call_build (\<lambda>progress. 1 / 1000)] (p, rs'))
        in Q_Net.epsilon (q_net q) = Q_Net.epsilon (q_net_target q))"
proof -
  obtain p rs' where e: "example_init (Discrete 2) (1 / 20) = Inr (p, rs')"
    by (simp add: construction_defs)
  have n: "\<forall>f. Call_build f \<notin> set []"
    "\<forall>f. Call_build f \<notin>
       set [Call_update_epsilon (1 / 2), Call_q_predict (T2 [[1]]) False, Call_make_q_net]"
    by simp_all
  have "epsilon_synced (fst (fold run_call [] (p, rs')))"
    using epsilon_kept_in_sync [OF e, of "[]"] n(1) by blast
  moreover have "epsilon_synced (fst (fold run_call
                  [Call_update_epsilon (1 / 2), Call_q_predict (T2 [[1]]) False, Call_make_q_net]
                  (p, rs')))"
    using epsilon_kept_in_sync [OF e,
        of "[Call_update_epsilon (1 / 2), Call_q_predict (T2 [[1]]) False, Call_make_q_net]"]
      n(2)
    by blast
  moreover have "Q_Net.epsilon (q_net (fst (fold run_call
                  [Call_update_epsilon (1 / 2), Call_build (\<lambda>progress. 1 / 1000)] (p, rs')))) =
      Q_Net.epsilon (q_net_target (fst (fold run_call
                  [Call_update_epsilon (1 / 2), Call_build (\<lambda>progress. 1 / 1000)] (p, rs'))))"
    using epsilon_kept_in_sync [OF e,
        of "[Call_update_epsilon (1 / 2), Call_build (\<lambda>progress. 1 / 1000)]"]
    by blast
  moreover have "epsilon p = 1 / 20" using DQNPolicy_init_synced(1) [OF e] .
  ultimately show ?thesis using e by (simp add: update_epsilon_def Let_def)
qed

text \<open>
  Claim C5 as stated fails: on the example policy, \<open>update_epsilon(1/2)\<close> followed by
  \<open>_build\<close> leaves the policy's rate at \<open>1/2\<close> and both networks' rates at \<open>1/20\<close>, the
  rate that \<open>net_args\<close> has held since construction.
\<close>

theorem epsilon_sync_broken_by_build_counterexample:
  "case example_init (Discrete 2) (1 / 20) of
     Inl e \<Rightarrow> False
   | Inr (p, rs') \<Rightarrow>
       (let q = fst (fold run_call
                  [Call_update_epsilon (1 / 2), Call_build (\<lambda>progress. 1 / 1000)] (p, rs'))
        in epsilon q = 1 / 2 \<and> Q_Net.epsilon (q_net q) = 1 / 20 \<and>
           Q_Net.epsilon (q_net_target q) = 1 / 20 \<and> \<not> epsilon_synced q)"
  by (simp add: construction_defs rebuild_def update_epsilon_def epsilon_synced_def
      eval_nat_numeral)

text \<open>
  Claim C10. \<open>update_epsilon\<close> leaves \<open>net_args\<close> as it is: when the new rate differs from
  the rate given at construction, a network made afterwards by \<open>make_q_net\<close> (which
  succeeds) carries the rate of the construction, not the policy's current one.
\<close>

theorem update_epsilon_keeps_net_args:
  assumes "DQNPolicy_init obs_space act_space lr_schedule arch dev use_sde act_fn log_std eps
             norm_images rs = Inr (p, rs')"
    and "x \<noteq> eps"
  shows "net_args (update_epsilon p x) = net_args p \<and>
         (\<exists>n rs2. make_q_net (update_epsilon p x) rs1 = Inr (n, rs2)) \<and>
         (\<forall>n rs2. make_q_net (update_epsilon p x) rs1 = Inr (n, rs2) \<longrightarrow>
                  Q_Net.epsilon n = eps \<and> Q_Net.epsilon n \<noteq> epsilon (update_epsilon p x))"
proof -
  have na: "net_args (update_epsilon p x) = net_args p"
    by (simp add: update_epsilon_def)
  then have mk: "make_q_net (update_epsilon p x) = make_q_net p"
    by (simp add: make_q_net_def fun_eq_iff)
  from target_sync_steps obtain rs0 where "make_q_net p rs = Inr (q_net p, rs0)"
    using assms(1) by blast
  from make_q_net_again [OF this] have ex: "\<exists>n rs2. make_q_net p rs1 = Inr (n, rs2)" .
  have "Q_Net.epsilon n = eps \<and> Q_Net.epsilon n \<noteq> epsilon (update_epsilon p x)"
    if "make_q_net p rs1 = Inr (n, rs2)" for n rs2
    using make_q_net_epsilon [OF that] DQNPolicy_init_synced(4) [OF assms(1)] assms(2)
    by (simp add: update_epsilon_def)
  then have "\<forall>n rs2. make_q_net p rs1 = Inr (n, rs2) \<longrightarrow>
                  Q_Net.epsilon n = eps \<and> Q_Net.epsilon n \<noteq> epsilon (update_epsilon p x)"
    by blast
  with na ex show ?thesis unfolding mk by blast
qed

theorem update_epsilon_keeps_net_args_witness:
  "case example_init (Discrete 2) (1 / 20) of
     Inl e \<Rightarrow> False
   | Inr (p, rs') \<Rightarrow>
       (1 / 2 :: real) \<noteq> 1 / 20 \<and>
       net_args (update_epsilon p (1 / 2)) = net_args p \<and>
       epsilon (update_epsilon p (1 / 2)) = 1 / 2 \<and>
       (case make_q_net (update_epsilon p (1 / 2)) rs' of
          Inl e \<Rightarrow> False
        | Inr (n, rs2) \<Rightarrow> Q_Net.epsilon n = 1 / 20)"
proof -
  obtain p rs' where e: "example_init (Discrete 2) (1 / 20) = Inr (p, rs')"
    by (simp add: construction_defs)
  have ne: "(1 / 2 :: real) \<noteq> 1 / 20" by simp
  note t = update_epsilon_keeps_net_args [OF e ne, of rs']
  from t obtain n rs2 where m: "make_q_net (update_epsilon p (1 / 2)) rs' = Inr (n, rs2)"
    by blast
  with t have "Q_Net.epsilon n = 1 / 20" by blast
  with t m e show ?thesis by (simp add: update_epsilon_def)
qed

subsection \<open>Errors of construction\<close>

lemma make_q_net_error: "make_q_net self rs = Inl e \<Longrightarrow> e = ConfigurationError"
  by (auto simp: make_q_net_def Q_Net_init_def create_mlp_def Let_def split_beta
      split: if_splits)

lemma DQNPolicy_build_error:
  assumes "DQNPolicy_build self lr_schedule rs = Inl e"
  shows "e = ConfigurationError \<or> e = ValueError"
proof (cases "make_q_net self rs")
  case (Inl e1)
  with assms make_q_net_error [OF Inl] show ?thesis
    by (simp add: DQNPolicy_build_def)
next
  case (Inr r1)
  then obtain online rs1 where a: "make_q_net self rs = Inr (online, rs1)"
    by (cases r1) auto
  show ?thesis
  proof (cases "make_q_net self rs1")
    case (Inl e2)
    with assms a make_q_net_error [OF Inl] show ?thesis
      by (simp add: DQNPolicy_build_def)
  next
    case (Inr r2)
    then obtain fresh rs2 where b: "make_q_net self rs1 = Inr (fresh, rs2)"
      by (cases r2) auto
    from make_q_net_twice [OF a b] resync [of fresh online]
    have "load_state_dict fresh (state_dict online) = Inr online" by simp
    with assms a b show ?thesis
      by (auto simp: DQNPolicy_build_def th_optim_Adam_def split: if_splits)
  qed
qed

text \<open>
  Claim C7, as the code has it. No construction of a policy raises
  \<open>UnsupportedSpaceError\<close>. When the action space is \<open>Discrete\<close> the construction does not
  raise \<open>AttributeError\<close> either; when it is a space without the attribute \<open>n\<close> the
  construction fails, and the exception is \<open>AttributeError\<close>.
\<close>

theorem construction_action_space_error:
  "DQNPolicy_init obs_space act_space lr_schedule arch dev use_sde act_fn log_std eps
     norm_images rs \<noteq> Inl UnsupportedSpaceError \<and>
   (case act_space of
      Discrete n \<Rightarrow>
        DQNPolicy_init obs_space act_space lr_schedule arch dev use_sde act_fn log_std eps
          norm_images rs \<noteq> Inl AttributeError
    | Box shape \<Rightarrow>
        DQNPolicy_init obs_space act_space lr_schedule arch dev use_sde act_fn log_std eps
          norm_images rs = Inl AttributeError
    | MultiDiscrete nvec \<Rightarrow>
        DQNPolicy_init obs_space act_space lr_schedule arch dev use_sde act_fn log_std eps
          norm_images rs = Inl AttributeError)"
proof (cases act_space)
  case (Discrete n)
  have "e = ConfigurationError \<or> e = ValueError"
    if "DQNPolicy_init obs_space act_space lr_schedule arch dev use_sde act_fn log_std eps
          norm_images rs = Inl e" for e
    using that Discrete
    by (auto simp: DQNPolicy_init_def Let_def dest: DQNPolicy_build_error)
  with Discrete show ?thesis by auto
next
  case (Box shape)
  then show ?thesis by (simp add: DQNPolicy_init_def Let_def)
next
  case (MultiDiscrete nvec)
  then show ?thesis by (simp add: DQNPolicy_init_def Let_def)
qed

text \<open>An instance with a discrete and with a continuous action space.\<close>

theorem construction_action_space_error_witness:
  "example_init (Discrete 2) (1 / 20) \<noteq> Inl UnsupportedSpaceError \<and>
   example_init (Discrete 2) (1 / 20) \<noteq> Inl AttributeError \<and>
   example_init (Box [2]) (1 / 20) \<noteq> Inl UnsupportedSpaceError \<and>
   example_init (Box [2]) (1 / 20) = Inl AttributeError"
  using construction_action_space_error [of "Box [1]" "Discrete 2" "\<lambda>progress. 1 / 1000"
      "Some [1]" "''cpu''" False ReLU 0 "1 / 20" True example_random]
    construction_action_space_error [of "Box [1]" "Box [2]" "\<lambda>progress. 1 / 1000"
      "Some [1]" "''cpu''" False ReLU 0 "1 / 20" True example_random]
  by simp

text \<open>
  Claim C7 as stated fails: with a \<open>Box\<close> action space the construction raises
  \<open>AttributeError\<close>, which is not \<open>UnsupportedSpaceError\<close>.
\<close>

theorem unsupported_space_error_counterexample:
  "example_init (Box [2]) (1 / 20) = Inl AttributeError \<and>
   example_init (Box [2]) (1 / 20) \<noteq> Inl UnsupportedSpaceError"
  by (simp add: DQNPolicy_init_def Let_def)

text \<open>
  Claim C8. The construction of a value network fails with \<open>ConfigurationError\<close> whenever
  \<open>net_arch\<close> is given and empty, and whenever \<open>action_dim \<le> 0\<close>. A \<open>net_arch\<close> that is
  not given is replaced by the default \<open>[64, 64]\<close> and is no error by itself.
\<close>

theorem Q_Net_init_configuration_error:
  "(Q_Net_kwargs.net_arch kw = Some [] \<or> Q_Net_kwargs.action_dim kw \<le> 0 \<longrightarrow>
      Q_Net_init kw rs = Inl ConfigurationError) \<and>
   (Q_Net_kwargs.net_arch kw = None \<and> 0 < Q_Net_kwargs.action_dim kw \<and>
    0 < Q_Net_kwargs.features_dim kw \<longrightarrow>
      (\<exists>n rs'. Q_Net_init kw rs = Inr (n, rs') \<and> Q_Net.net_arch n = [64, 64]))"
  by (auto simp: Q_Net_init_def create_mlp_def Let_def split_beta)

text \<open>
  Instances: an empty \<open>net_arch\<close>; no action; and no \<open>net_arch\<close>, where the construction
  completes.
\<close>

theorem Q_Net_init_configuration_error_witness:
  "Q_Net_init
     \<lparr>Q_Net_kwargs.observation_space = Box [1], Q_Net_kwargs.action_space = Discrete 2,
      Q_Net_kwargs.features_extractor = Flatten, Q_Net_kwargs.features_dim = 1,
      Q_Net_kwargs.action_dim = 2, Q_Net_kwargs.net_arch = Some [],
      Q_Net_kwargs.device = ''cpu'', Q_Net_kwargs.activation_fn = ReLU,
      Q_Net_kwargs.epsilon = 1 / 20, Q_Net_kwargs.normalize_images = True\<rparr>
     example_random = Inl ConfigurationError \<and>
   Q_Net_init
     \<lparr>Q_Net_kwargs.observation_space = Box [1], Q_Net_kwargs.action_space = Discrete 0,
      Q_Net_kwargs.features_extractor = Flatten, Q_Net_kwargs.features_dim = 1,
      Q_Net_kwargs.action_dim = 0, Q_Net_kwargs.net_arch = Some [1],
      Q_Net_kwargs.device = ''cpu'', Q_Net_kwargs.activation_fn = ReLU,
      Q_Net_kwargs.epsilon = 1 / 20, Q_Net_kwargs.normalize_images = True\<rparr>
     example_random = Inl ConfigurationError \<and>
   (\<exists>n rs'.
      Q_Net_init
        \<lparr>Q_Net_kwargs.observation_space = Box [1], Q_Net_kwargs.action_space = Discrete 2,
         Q_Net_kwargs.features_extractor = Flatten, Q_Net_kwargs.features_dim = 1,
         Q_Net_kwargs.action_dim = 2, Q_Net_kwargs.net_arch = None,
         Q_Net_kwargs.device = ''cpu'', Q_Net_kwargs.activation_fn = ReLU,
         Q_Net_kwargs.epsilon = 1 / 20, Q_Net_kwargs.normalize_images = True\<rparr>
        example_random = Inr (n, rs') \<and> Q_Net.net_arch n = [64, 64])"
  using
    Q_Net_init_configuration_error [of
      "\<lparr>Q_Net_kwargs.observation_space = Box [1], Q_Net_kwargs.action_space = Discrete 2,
        Q_Net_kwargs.features_extractor = Flatten, Q_Net_kwargs.features_dim = 1,
        Q_Net_kwargs.action_dim = 2, Q_Net_kwargs.net_arch = Some [],
        Q_Net_kwargs.device = ''cpu'', Q_Net_kwargs.activation_fn = ReLU,
        Q_Net_kwargs.epsilon = 1 / 20, Q_Net_kwargs.normalize_images = True\<rparr>" example_random]
    Q_Net_init_configuration_error [of
      "\<lparr>Q_Net_kwargs.observation_space = Box [1], Q_Net_kwargs.action_space = Discrete 0,
        Q_Net_kwargs.features_extractor = Flatten, Q_Net_kwargs.features_dim = 1,
        Q_Net_kwargs.action_dim = 0, Q_Net_kwargs.net_arch = Some [1],
        Q_Net_kwargs.device = ''cpu'', Q_Net_kwargs.activation_fn = ReLU,
        Q_Net_kwargs.epsilon = 1 / 20, Q_Net_kwargs.normalize_images = True\<rparr>" example_random]
    Q_Net_init_configuration_error [of
      "\<lparr>Q_Net_kwargs.observation_space = Box [1], Q_Net_kwargs.action_space = Discrete 2,
        Q_Net_kwargs.features_extractor = Flatten, Q_Net_kwargs.features_dim = 1,
        Q_Net_kwargs.action_dim = 2, Q_Net_kwargs.net_arch = None,
        Q_Net_kwargs.device = ''cpu'', Q_Net_kwargs.activation_fn = ReLU,
        Q_Net_kwargs.epsilon = 1 / 20, Q_Net_kwargs.normalize_images = True\<rparr>" example_random]
  by simp

subsection \<open>Repeating the synchronisation\<close>







subsection \<open>Action selection\<close>

lemma argmax_from_first:
  assumes "length pre = i" "bi < i" "pre ! bi = best"
    "\<forall>j<i. pre ! j \<le> best" "\<forall>j<bi. pre ! j < best"
  shows "argmax_from best bi i ys < length (pre @ ys) \<and>
         (\<forall>j<length (pre @ ys). (pre @ ys) ! j \<le> (pre @ ys) ! argmax_from best bi i ys) \<and>
         (\<forall>j<argmax_from best bi i ys. (pre @ ys) ! j < (pre @ ys) ! argmax_from best bi i ys)"
  using assms
proof (induction ys arbitrary: pre i bi best)
  case Nil
  then show ?case by auto
next
  case (Cons y ys)
  have len: "length (pre @ [y]) = Suc i" using Cons.prems(1) by simp
  have app: "(pre @ [y]) @ ys = pre @ y # ys" by simp
  show ?case
  proof (cases "best < y")
    case True
    have "(pre @ [y]) ! i = y" using Cons.prems(1) by (simp add: nth_append)
    moreover have "\<forall>j<Suc i. (pre @ [y]) ! j \<le> y"
      using Cons.prems(1,4) True by (auto simp: nth_append less_Suc_eq)
    moreover have "\<forall>j<i. (pre @ [y]) ! j < y"
      using Cons.prems(1,4) True by (auto simp: nth_append)
    ultimately show ?thesis
      using Cons.IH [of "pre @ [y]" "Suc i" i y] len True by (simp only: app argmax_from.simps if_True) simp
  next
    case False
    have "(pre @ [y]) ! bi = best" using Cons.prems(1,2,3) by (simp add: nth_append)
    moreover have "\<forall>j<Suc i. (pre @ [y]) ! j \<le> best"
      using Cons.prems(1,4) False by (auto simp: nth_append less_Suc_eq)
    moreover have "\<forall>j<bi. (pre @ [y]) ! j < best"
      using Cons.prems(1,2,5) by (auto simp: nth_append)
    ultimately show ?thesis
      using Cons.IH [of "pre @ [y]" "Suc i" bi best] len False Cons.prems(2)
      by (simp only: app argmax_from.simps if_False) simp
  qed
qed

lemma argmax_row_first:
  assumes "r \<noteq> []"
  shows "argmax_row r < length r \<and> r ! argmax_row r = Max (set r) \<and>
         (\<forall>j<length r. r ! j = Max (set r) \<longrightarrow> argmax_row r \<le> j)"
proof -
  from assms obtain x xs where r: "r = x # xs" by (cases r) auto
  from argmax_from_first [of "[x]" 1 0 x xs] r have
    a: "argmax_row r < length r" and
    b: "\<forall>j<length r. r ! j \<le> r ! argmax_row r" and
    c: "\<forall>j<argmax_row r. r ! j < r ! argmax_row r"
    by auto
  have m: "r ! argmax_row r = Max (set r)"
  proof (rule Max_eqI [symmetric])
    show "finite (set r)" by simp
    show "r ! argmax_row r \<in> set r" using a by simp
    fix y assume "y \<in> set r"
    then show "y \<le> r ! argmax_row r" using b by (auto simp: in_set_conv_nth)
  qed
  have "argmax_row r \<le> j" if "j < length r" "r ! j = Max (set r)" for j
    using c m that by (metis less_irrefl not_le_imp_less)
  with a m show ?thesis by blast
qed

lemma nn_Sequential_rank2:
  "nn_Sequential ls (T2 rows) = Inr q \<Longrightarrow> \<exists>rows'. q = T2 rows' \<and> length rows' = length rows"
proof (induction ls arbitrary: rows)
  case Nil
  then show ?case by auto
next
  case (Cons l ls)
  show ?case
  proof (cases l)
    case (Linear d_in d_out W b)
    with Cons.prems have "nn_Sequential ls (T2 (map (affine W b) rows)) = Inr q"
      by (auto split: if_splits)
    from Cons.IH [OF this] show ?thesis by simp
  next
    case (Activation a)
    with Cons.prems have "nn_Sequential ls (T2 (map (map (act_apply a)) rows)) = Inr q"
      by simp
    from Cons.IH [OF this] show ?thesis by simp
  qed
qed

lemma forward_rank2:
  assumes "forward self obs = Inr q"
  shows "\<exists>rows. q = T2 rows \<and> length rows = shape0 obs"
proof (cases obs)
  case (T2 orows)
  with assms have "nn_Sequential (Q_Net.q_net self) (T2 orows) = Inr q"
    by (cases "Q_Net.features_extractor self") (simp add: forward_def extract_features_def)
  from nn_Sequential_rank2 [OF this] T2 show ?thesis by simp
next
  case (T1 xs)
  with assms show ?thesis
    by (cases "Q_Net.features_extractor self") (simp add: forward_def extract_features_def)
next
  case (T0 x)
  with assms show ?thesis
    by (cases "Q_Net.features_extractor self") (simp add: forward_def extract_features_def)
qed

lemma predict_deterministic:
  "predict self obs True rs =
     ((case forward self obs of
         Inl e \<Rightarrow> Inl e
       | Inr q_val \<Rightarrow>
           (case th_argmax_dim1 q_val of
              Inl e \<Rightarrow> Inl e
            | Inr action \<Rightarrow> Inr (reshape_flat action))), rs)"
  by (simp add: predict_def forward_def split: sum.splits)

lemma nn_Sequential_append:
  "nn_Sequential (ls @ ls') t =
     (case nn_Sequential ls t of Inl e \<Rightarrow> Inl e | Inr t' \<Rightarrow> nn_Sequential ls' t')"
  by (induction ls arbitrary: t) (auto split: sum.splits)

lemma mlp_layers_last:
  "\<exists>ls0 d W b. fst (mlp_layers d_in hs d_out act rs) = ls0 @ [Linear d d_out W b] \<and>
                 length W = d_out \<and> length b = d_out"
proof (induction hs arbitrary: d_in rs)
  case Nil
  show ?case by (simp add: nn_Linear_def Let_def)
next
  case (Cons h hs)
  from Cons [of h "snd (nn_Linear d_in h rs)"] obtain ls0 d W b where
    "fst (mlp_layers h hs d_out act (snd (nn_Linear d_in h rs))) = ls0 @ [Linear d d_out W b]"
    "length W = d_out" "length b = d_out"
    by blast
  then have "fst (mlp_layers d_in (h # hs) d_out act rs) =
      (fst (nn_Linear d_in h rs) # Activation act # ls0) @ [Linear d d_out W b] \<and>
      length W = d_out \<and> length b = d_out"
    by (simp add: split_beta Let_def)
  then show ?case by blast
qed

lemma constructed_rows_nonempty:
  assumes "Q_Net_init kw rs0 = Inr (self, rs1)" and "forward self obs = Inr (T2 rows)"
  shows "[] \<notin> set rows"
proof -
  let ?arch = "case Q_Net_kwargs.net_arch kw of None \<Rightarrow> [64, 64] | Some a \<Rightarrow> a"
  from assms(1) have pos: "0 < Q_Net_kwargs.action_dim kw" and
    ls: "Q_Net.q_net self =
           fst (mlp_layers (nat (Q_Net_kwargs.features_dim kw)) (map nat ?arch)
                  (nat (Q_Net_kwargs.action_dim kw)) (Q_Net_kwargs.activation_fn kw) rs0)"
    by (auto simp: Q_Net_init_def create_mlp_def Let_def split_beta split: if_splits)
  from mlp_layers_last ls obtain ls0 d W b where
    l: "Q_Net.q_net self = ls0 @ [Linear d (nat (Q_Net_kwargs.action_dim kw)) W b]"
       "length W = nat (Q_Net_kwargs.action_dim kw)" "length b = nat (Q_Net_kwargs.action_dim kw)"
    by metis
  from assms(2) obtain f where
    f: "extract_features self obs = Inr f" "nn_Sequential (Q_Net.q_net self) f = Inr (T2 rows)"
    by (auto simp: forward_def split: sum.splits)
  from f(2) l(1) obtain t where
    t: "layer_apply (Linear d (nat (Q_Net_kwargs.action_dim kw)) W b) t = Inr (T2 rows)"
    by (auto simp: nn_Sequential_append split: sum.splits)
  then obtain rows' where "rows = map (affine W b) rows'"
    by (cases t) (auto split: if_splits)
  with l(2,3) pos show ?thesis by (auto simp: affine_def)
qed

text \<open>
  Claim C4. Whenever the forward pass of an observation yields Q-values, these are a table
  with one row per batch element; if no row is empty (there is an action), the
  deterministic prediction returns, for every row, an index within the row at which the
  row takes its maximum and below which no index does: the lowest index of a maximal
  Q-value. The random sources are not touched. No row is empty when the network is one
  that the constructor returned.
\<close>

theorem deterministic_predict_first_argmax:
  assumes "forward self obs = Inr q"
  shows "\<exists>rows. q = T2 rows \<and> length rows = shape0 obs \<and>
           ([] \<notin> set rows \<longrightarrow>
              predict self obs True rs = (Inr (T1 (map argmax_row rows)), rs) \<and>
              (\<forall>r\<in>set rows.
                  argmax_row r < length r \<and> r ! argmax_row r = Max (set r) \<and>
                  (\<forall>j<length r. r ! j = Max (set r) \<longrightarrow> argmax_row r \<le> j))) \<and>
           (\<forall>kw rs0 rs1. Q_Net_init kw rs0 = Inr (self, rs1) \<longrightarrow> [] \<notin> set rows)"
proof -
  from forward_rank2 [OF assms] obtain rows where
    q: "q = T2 rows" "length rows = shape0 obs" by blast
  have "predict self obs True rs = (Inr (T1 (map argmax_row rows)), rs)" if "[] \<notin> set rows"
    using that assms q by (simp add: predict_deterministic reshape_flat_def)
  moreover have "argmax_row r < length r \<and> r ! argmax_row r = Max (set r) \<and>
      (\<forall>j<length r. r ! j = Max (set r) \<longrightarrow> argmax_row r \<le> j)"
    if "[] \<notin> set rows" "r \<in> set rows" for r
    using that argmax_row_first [of r] by auto
  moreover have "[] \<notin> set rows" if "Q_Net_init kw rs0 = Inr (self, rs1)" for kw rs0 rs1
    using constructed_rows_nonempty [OF that] assms q by simp
  ultimately show ?thesis using q by blast
qed

text \<open>
  An instance: a network with four actions whose forward pass gives the Q-values
  \<open>[0.1, 0.9, 0.9, 0.2]\<close> on the first observation of a batch and \<open>[1, 1, 0.9, 0.2]\<close> on
  the second; the deterministic prediction is action 1 for the first and action 0 for the
  second.
\<close>

theorem deterministic_predict_first_argmax_witness:
  "forward example_net (T2 [[0], [1]]) =
     Inr (T2 [[1 / 10, 9 / 10, 9 / 10, 2 / 10], [1, 1, 9 / 10, 2 / 10]]) \<and>
   predict example_net (T2 [[0], [1]]) True example_random = (Inr (T1 [1, 0]), example_random)"
proof -
  have f: "forward example_net (T2 [[0], [1]]) =
     Inr (T2 [[1 / 10, 9 / 10, 9 / 10, 2 / 10], [1, 1, 9 / 10, 2 / 10]])"
    by (simp add: forward_def extract_features_def affine_def dot_def)
  from deterministic_predict_first_argmax [OF f, of example_random] f show ?thesis
    by simp
qed

text \<open>
  Claim C9. With \<open>epsilon = 0\<close> and a uniform draw that is not negative, the prediction
  with \<open>deterministic = False\<close> returns what the prediction with \<open>deterministic = True\<close>
  returns, a result or an exception, for every observation and every state of the random
  sources.
\<close>

theorem zero_epsilon_predict_deterministic:
  assumes "Q_Net.epsilon self = 0" and "0 \<le> np_rand rs (np_rand_calls rs)"
  shows "fst (predict self obs False rs) = fst (predict self obs True rs)"
  using assms by (simp add: predict_def np_random_rand_def)

text \<open>An instance, on the network and the batch of the previous example.\<close>

theorem zero_epsilon_predict_deterministic_witness:
  "Q_Net.epsilon example_net = 0 \<and>
   0 \<le> np_rand example_random (np_rand_calls example_random) \<and>
   fst (predict example_net (T2 [[0], [1]]) False example_random) = Inr (T1 [1, 0]) \<and>
   fst (predict example_net (T2 [[0], [1]]) True example_random) = Inr (T1 [1, 0])"
proof -
  have t: "fst (predict example_net (T2 [[0], [1]]) True example_random) = Inr (T1 [1, 0])"
    by (simp add: predict_def extract_features_def affine_def dot_def reshape_flat_def)
  have "fst (predict example_net (T2 [[0], [1]]) False example_random) =
        fst (predict example_net (T2 [[0], [1]]) True example_random)"
    by (rule zero_epsilon_predict_deterministic) simp_all
  with t show ?thesis by simp
qed

lemma sample_list_result:
  "length (fst (sample_list sp k rs)) = k \<and>
   np_rand_calls (snd (sample_list sp k rs)) = np_rand_calls rs \<and>
   space_sample_calls (snd (sample_list sp k rs)) = space_sample_calls rs + k"
  by (induction k arbitrary: rs) (simp_all add: split_beta space_sample_def)

text \<open>
  The parts of \<open>predict\<close>. A call with \<open>deterministic = False\<close> uses exactly one uniform
  draw, a deterministic call none. A draw below \<open>epsilon\<close> makes the call explore: an
  unbatched observation gets one sample; a batch gets a result only if it has one element,
  and RuntimeError otherwise. Any other draw gives what the deterministic call gives.
\<close>

lemma predict_uniform_draws:
  "np_rand_calls (snd (predict self obs False rs)) = Suc (np_rand_calls rs)"
  "np_rand_calls (snd (predict self obs True rs)) = np_rand_calls rs"
  by (simp_all add: predict_def np_random_rand_def space_sample_def split_beta
      sample_list_result)

lemma predict_explore_unbatched:
  assumes "np_rand rs (np_rand_calls rs) < Q_Net.epsilon self" and "ndim obs \<le> 1"
  shows "fst (predict self obs False rs) = Inr (T1 [space_samples rs (space_sample_calls rs)])"
  using assms
  by (simp add: predict_def np_random_rand_def space_sample_def reshape_1_def split_beta)

lemma predict_explore_batch:
  assumes "np_rand rs (np_rand_calls rs) < Q_Net.epsilon self" and "1 < ndim obs"
  shows "fst (predict self obs False rs) =
           (if shape0 obs = 1 then Inr (T1 [space_samples rs (space_sample_calls rs)])
            else Inl RuntimeError)"
proof -
  let ?rs1 = "snd (np_random_rand rs)"
  let ?acts = "fst (sample_list (Q_Net.action_space self) (shape0 obs) ?rs1)"
  have p: "fst (predict self obs False rs) = reshape_1 (T1 ?acts)"
    using assms by (simp add: predict_def np_random_rand_def split_beta)
  have len: "length ?acts = shape0 obs" by (simp add: sample_list_result)
  show ?thesis
  proof (cases "shape0 obs = 1")
    case True
    then have "?acts = [space_samples rs (space_sample_calls rs)]"
      by (simp add: np_random_rand_def space_sample_def split_beta)
    with p True show ?thesis by (simp add: reshape_1_def)
  next
    case False
    with len have "\<nexists>a. ?acts = [a]" by auto
    then have "reshape_1 (T1 ?acts) = Inl RuntimeError"
      by (cases ?acts rule: list.exhaust; cases "tl ?acts") (auto simp: reshape_1_def)
    with p False show ?thesis by simp
  qed
qed

lemma predict_exploit:
  assumes "\<not> np_rand rs (np_rand_calls rs) < Q_Net.epsilon self"
  shows "fst (predict self obs False rs) = fst (predict self obs True rs)"
  using assms by (simp add: predict_def np_random_rand_def)

text \<open>
  Claim C3, evaluated. On the online network of the example policy (two actions,
  \<open>epsilon = 1/20\<close>) with a uniform draw of \<open>0\<close>, so that the call explores: a batch of two
  observations makes \<open>predict\<close> raise RuntimeError, from \<open>reshape(1)\<close> of a tensor of two
  samples, where the claim promises two actions; a batch of one, and an unbatched
  observation, give one sampled action; the deterministic call on the batch of two gives
  two actions. The call with \<open>deterministic = False\<close> uses one uniform draw.
\<close>

theorem predict_explore_batch_raises:
  "case example_init (Discrete 2) (1 / 20) of
     Inl e \<Rightarrow> False
   | Inr (p, rs') \<Rightarrow>
       fst (predict (q_net p) (T2 [[0], [0]]) False rs') = Inl RuntimeError \<and>
       np_rand_calls (snd (predict (q_net p) (T2 [[0], [0]]) False rs')) = 1 \<and>
       space_sample_calls (snd (predict (q_net p) (T2 [[0], [0]]) False rs')) = 2 \<and>
       fst (predict (q_net p) (T2 [[0]]) False rs') = Inr (T1 [0]) \<and>
       fst (predict (q_net p) (T1 [0]) False rs') = Inr (T1 [0]) \<and>
       fst (predict (q_net p) (T2 [[0], [0]]) True rs') = Inr (T1 [1, 1])"
  by (simp add: construction_defs predict_def np_random_rand_def space_sample_def reshape_1_def
      reshape_flat_def extract_features_def affine_def dot_def eval_nat_numeral)

end
